theory Spec2Isabelle
  imports Complex_Main "HOL-Library.Multiset" "HOL-Library.FSet"
begin

section \<open>Graph insights: data model\<close>

text \<open>
  Embedding of \<^verbatim>\<open>theauditor/insights/graph.py\<close> (class \<^verbatim>\<open>GraphInsights\<close>).

  Conventions of the embedding:
  \<^item> Python \<^verbatim>\<open>int\<close> is \<open>int\<close>; Python \<^verbatim>\<open>float\<close> is idealised as \<open>real\<close>
    (no rounding, no infinities, no NaN).
  \<^item> A \<^verbatim>\<open>dict\<close> is an association list with distinct keys in insertion order;
    a \<^verbatim>\<open>defaultdict\<close> is a total function; a \<^verbatim>\<open>set\<close> is a duplicate-free list.
  \<^item> An optional argument (\<^verbatim>\<open>None\<close> by default) and an optional dictionary key
    are \<open>option\<close>s.
  \<^item> Every exception is a value \<open>Inl e\<close> of the result.
\<close>

datatype error = KeyError | TypeError | AttributeError | IndexError | ValueError

text \<open>Edges \<^verbatim>\<open>{"source": s, "target": t}\<close> and nodes \<^verbatim>\<open>{"id": i, "churn"?: c, "loc"?: l}\<close>.\<close>

record edge =
  e_source :: string
  e_target :: string

record node =
  n_id :: string
  n_churn :: "int option"
  n_loc :: "int option"

text \<open>A graph dictionary; both keys are read with \<^verbatim>\<open>.get(key, [])\<close>, so either may be absent.\<close>

record graph =
  g_nodes :: "node list option"
  g_edges :: "edge list option"

definition get_nodes :: "graph \<Rightarrow> node list" where
  "get_nodes g = (case g_nodes g of None \<Rightarrow> [] | Some ns \<Rightarrow> ns)"

definition get_edges :: "graph \<Rightarrow> edge list" where
  "get_edges g = (case g_edges g of None \<Rightarrow> [] | Some es \<Rightarrow> es)"

record cycle =
  c_nodes :: "string list"
  c_size :: int

text \<open>
  Keys of the layer dictionary: the signature annotates them as strings, the comparison
  \<^verbatim>\<open>max(layers.keys()) < 10\<close> needs integers.
\<close>

datatype layer_key = IntKey int | StrKey string

type_synonym layers = "(layer_key \<times> string list) list"

record hotspot =
  h_id :: string
  h_in_degree :: int
  h_out_degree :: int
  h_centrality :: real
  h_churn :: int
  h_loc :: int
  h_score :: real

section \<open>Dictionaries\<close>

fun dict_set :: "'k \<Rightarrow> 'v \<Rightarrow> ('k \<times> 'v) list \<Rightarrow> ('k \<times> 'v) list" where
  "dict_set k v [] = [(k, v)]"
| "dict_set k v ((k', v') # kvs) =
     (if k' = k then (k, v) # kvs else (k', v') # dict_set k v kvs)"

definition dict_subscript :: "('k \<times> 'v) list \<Rightarrow> 'k \<Rightarrow> error + 'v" where
  "dict_subscript d k = (case map_of d k of None \<Rightarrow> Inl KeyError | Some v \<Rightarrow> Inr v)"

definition dict_get :: "('k \<times> 'v) list \<Rightarrow> 'k \<Rightarrow> 'v \<Rightarrow> 'v" where
  "dict_get d k dflt = (case map_of d k of None \<Rightarrow> dflt | Some v \<Rightarrow> v)"

text \<open>Sequencing of computations that may raise: the first exception ends them.\<close>

definition bindE :: "error + 'a \<Rightarrow> ('a \<Rightarrow> error + 'b) \<Rightarrow> error + 'b" where
  "bindE m f = (case m of Inl e \<Rightarrow> Inl e | Inr x \<Rightarrow> f x)"

fun foldE :: "('a \<Rightarrow> 'b \<Rightarrow> error + 'b) \<Rightarrow> 'a list \<Rightarrow> 'b \<Rightarrow> error + 'b" where
  "foldE f [] acc = Inr acc"
| "foldE f (x # xs) acc = bindE (f x acc) (foldE f xs)"

text \<open>\<^verbatim>\<open>s.add(x)\<close> on a set.\<close>

definition set_add :: "'a \<Rightarrow> 'a list \<Rightarrow> 'a list" where
  "set_add x xs = (if x \<in> set xs then xs else xs @ [x])"

section \<open>Weights and construction\<close>

type_synonym weights = "(string \<times> real) list"

definition DEFAULT_WEIGHTS :: weights where
  "DEFAULT_WEIGHTS =
     [(''in_degree'', 3 / 10), (''out_degree'', 2 / 10), (''centrality'', 3 / 10),
      (''churn'', 1 / 10), (''loc'', 1 / 10)]"

text \<open>\<^verbatim>\<open>self.weights = weights or self.DEFAULT_WEIGHTS\<close>: \<^verbatim>\<open>None\<close> and \<^verbatim>\<open>{}\<close> are falsy.\<close>

definition init :: "weights option \<Rightarrow> weights" where
  "init w = (case w of None \<Rightarrow> DEFAULT_WEIGHTS
             | Some d \<Rightarrow> if d = [] then DEFAULT_WEIGHTS else d)"

section \<open>Centrality\<close>

definition damping :: real where
  "damping = 85 / 100"

definition iterations :: nat where
  "iterations = 10"

text \<open>
  The first loop of \<^verbatim>\<open>_calculate_centrality\<close>: one pass over the edges fills the
  adjacency \<^verbatim>\<open>defaultdict(list)\<close> and the node set.
\<close>

definition build_step :: "edge \<Rightarrow> (string \<Rightarrow> string list) \<times> string list
    \<Rightarrow> (string \<Rightarrow> string list) \<times> string list" where
  "build_step e st =
     (case st of (adj, nodes) \<Rightarrow>
        (adj(e_source e := adj (e_source e) @ [e_target e]),
         set_add (e_target e) (set_add (e_source e) nodes)))"

definition build :: "edge list \<Rightarrow> (string \<Rightarrow> string list) \<times> string list" where
  "build es = fold build_step es (\<lambda>_. [], [])"

text \<open>The body of the innermost loop, for one \<^verbatim>\<open>source\<close>.\<close>

definition contribution :: "(string \<Rightarrow> string list) \<Rightarrow> (string \<times> real) list \<Rightarrow> string
    \<Rightarrow> string \<Rightarrow> real \<Rightarrow> error + real" where
  "contribution adj scores node source score =
     (if node \<in> set (adj source) then
        (let out_count = (if length (adj source) = 0 then 1 else length (adj source))
         in bindE (dict_subscript scores source)
              (\<lambda>v. Inr (score + damping * v / real out_count)))
      else Inr score)"

definition node_score :: "(string \<Rightarrow> string list) \<Rightarrow> string list \<Rightarrow> (string \<times> real) list
    \<Rightarrow> string \<Rightarrow> error + real" where
  "node_score adj nodes scores node = foldE (contribution adj scores node) nodes (1 - damping)"

text \<open>One iteration: \<^verbatim>\<open>new_scores\<close> is filled from the old \<^verbatim>\<open>scores\<close>.\<close>

definition iteration :: "(string \<Rightarrow> string list) \<Rightarrow> string list \<Rightarrow> (string \<times> real) list
    \<Rightarrow> error + (string \<times> real) list" where
  "iteration adj nodes scores =
     foldE (\<lambda>node new_scores.
              bindE (node_score adj nodes scores node)
                (\<lambda>score. Inr (dict_set node score new_scores)))
           nodes []"

fun iterate :: "nat \<Rightarrow> (string \<Rightarrow> string list) \<Rightarrow> string list \<Rightarrow> (string \<times> real) list
    \<Rightarrow> error + (string \<times> real) list" where
  "iterate 0 adj nodes scores = Inr scores"
| "iterate (Suc k) adj nodes scores =
     bindE (iteration adj nodes scores) (iterate k adj nodes)"

text \<open>The scores after the power iteration, before normalisation.\<close>

definition power_iteration :: "edge list \<Rightarrow> error + (string \<times> real) list" where
  "power_iteration es =
     (case build es of (adj, nodes) \<Rightarrow>
        iterate iterations adj nodes (map (\<lambda>node. (node, 1)) nodes))"

text \<open>
  \<^verbatim>\<open>max\<close> of a non-empty sequence, given by its first element and the rest.
\<close>

definition py_max :: "'a::linorder \<Rightarrow> 'a list \<Rightarrow> 'a" where
  "py_max x xs = fold max xs x"

text \<open>
  The normalisation at the end of \<^verbatim>\<open>_calculate_centrality\<close>: nothing happens to an
  empty dictionary, nor when the maximum is not positive.
\<close>

definition normalize_scores :: "(string \<times> real) list \<Rightarrow> (string \<times> real) list" where
  "normalize_scores scores =
     (case scores of
        [] \<Rightarrow> scores
      | kv # kvs \<Rightarrow>
          (let max_score = py_max (snd kv) (map snd kvs)
           in if max_score > 0 then map (\<lambda>(k, v). (k, v / max_score)) scores else scores))"

definition calculate_centrality :: "graph \<Rightarrow> error + (string \<times> real) list" where
  "calculate_centrality g =
     bindE (power_iteration (get_edges g)) (\<lambda>scores. Inr (normalize_scores scores))"

section \<open>Impact ratio\<close>

definition calculate_impact_ratio :: "string list \<Rightarrow> string fset \<Rightarrow> int \<Rightarrow> real" where
  "calculate_impact_ratio targets all_impacted total_nodes =
     (if total_nodes = 0 then 0
      else real (fcard all_impacted) / real_of_int total_nodes)"

section \<open>Hotspot ranking\<close>

text \<open>Truthiness of an optional list argument: \<^verbatim>\<open>None\<close> and \<^verbatim>\<open>[]\<close> are falsy.\<close>

definition truthy :: "'a list option \<Rightarrow> bool" where
  "truthy x = (case x of None \<Rightarrow> False | Some xs \<Rightarrow> xs \<noteq> [])"

text \<open>Truthiness of an optional graph dictionary: \<^verbatim>\<open>None\<close> and \<^verbatim>\<open>{}\<close> are falsy.\<close>

definition graph_truthy :: "graph option \<Rightarrow> bool" where
  "graph_truthy x =
     (case x of None \<Rightarrow> False | Some g \<Rightarrow> g_nodes g \<noteq> None \<or> g_edges g \<noteq> None)"

text \<open>The degree loops: \<^verbatim>\<open>in_degree\<close> and \<^verbatim>\<open>out_degree\<close> are \<^verbatim>\<open>defaultdict(int)\<close>.\<close>

definition degree_step :: "edge \<Rightarrow> (string \<Rightarrow> int) \<times> (string \<Rightarrow> int)
    \<Rightarrow> (string \<Rightarrow> int) \<times> (string \<Rightarrow> int)" where
  "degree_step e st =
     (case st of (in_degree, out_degree) \<Rightarrow>
        (in_degree(e_target e := in_degree (e_target e) + 1),
         out_degree(e_source e := out_degree (e_source e) + 1)))"

definition count_degrees :: "graph \<Rightarrow> graph option \<Rightarrow> (string \<Rightarrow> int) \<times> (string \<Rightarrow> int)" where
  "count_degrees import_graph call_graph =
     (let st = fold degree_step (get_edges import_graph) (\<lambda>_. 0, \<lambda>_. 0)
      in case call_graph of
           None \<Rightarrow> st
         | Some cg \<Rightarrow> if graph_truthy call_graph then fold degree_step (get_edges cg) st else st)"

text \<open>\<^verbatim>\<open>node.get(key, 0) or 0\<close> for the optional \<^verbatim>\<open>churn\<close> and \<^verbatim>\<open>loc\<close>.\<close>

definition or_zero :: "int option \<Rightarrow> int" where
  "or_zero x = (case x of None \<Rightarrow> 0 | Some v \<Rightarrow> if v = 0 then 0 else v)"

text \<open>
  The weighted score; every \<^verbatim>\<open>self.weights[key]\<close> raises \<^verbatim>\<open>KeyError\<close> on a
  missing key.
\<close>

definition weighted_score :: "weights \<Rightarrow> int \<Rightarrow> int \<Rightarrow> real \<Rightarrow> int \<Rightarrow> int \<Rightarrow> error + real" where
  "weighted_score w in_deg out_deg cent churn loc =
     bindE (dict_subscript w ''in_degree'') (\<lambda>w_in.
     bindE (dict_subscript w ''out_degree'') (\<lambda>w_out.
     bindE (dict_subscript w ''centrality'') (\<lambda>w_cent.
     bindE (dict_subscript w ''churn'') (\<lambda>w_churn.
     bindE (dict_subscript w ''loc'') (\<lambda>w_loc.
       Inr (w_in * real_of_int in_deg + w_out * real_of_int out_deg + w_cent * cent
            + w_churn * (real_of_int churn / 100) + w_loc * (real_of_int loc / 1000)))))))"

text \<open>The body of the loop over the node list: one hotspot record per node.\<close>

definition hotspot_of :: "weights \<Rightarrow> (string \<Rightarrow> int) \<Rightarrow> (string \<Rightarrow> int) \<Rightarrow> (string \<times> real) list
    \<Rightarrow> node \<Rightarrow> error + hotspot" where
  "hotspot_of w in_degree out_degree centrality nd =
     (let node_id = n_id nd;
          in_deg = in_degree node_id;
          out_deg = out_degree node_id;
          cent = dict_get centrality node_id 0;
          churn = or_zero (n_churn nd);
          loc = or_zero (n_loc nd)
      in bindE (weighted_score w in_deg out_deg cent churn loc)
           (\<lambda>score.
              Inr \<lparr>h_id = node_id, h_in_degree = in_deg, h_out_degree = out_deg,
                   h_centrality = cent, h_churn = churn, h_loc = loc, h_score = score\<rparr>))"

text \<open>
  \<^verbatim>\<open>hotspots.sort(key=lambda h: h["score"], reverse=True)\<close>: the built-in sort is
  stable, also with \<^verbatim>\<open>reverse=True\<close>; it is modelled by the stable insertion sort
  on the negated key.
\<close>

definition sort_by_score_desc :: "hotspot list \<Rightarrow> hotspot list" where
  "sort_by_score_desc hs = sort_key (\<lambda>h. - h_score h) hs"

definition unsorted_hotspots :: "weights \<Rightarrow> graph \<Rightarrow> graph option \<Rightarrow> error + hotspot list" where
  "unsorted_hotspots w import_graph call_graph =
     (case count_degrees import_graph call_graph of (in_degree, out_degree) \<Rightarrow>
        bindE (calculate_centrality import_graph) (\<lambda>centrality.
          foldE (\<lambda>nd hotspots.
                   bindE (hotspot_of w in_degree out_degree centrality nd)
                     (\<lambda>h. Inr (hotspots @ [h])))
                (get_nodes import_graph) []))"

definition rank_hotspots :: "weights \<Rightarrow> graph \<Rightarrow> graph option \<Rightarrow> error + hotspot list" where
  "rank_hotspots w import_graph call_graph =
     bindE (unsorted_hotspots w import_graph call_graph)
       (\<lambda>hotspots. Inr (sort_by_score_desc hotspots))"

text \<open>A weight configuration that has all five keys read by the scoring.\<close>

definition complete_weights :: "weights \<Rightarrow> bool" where
  "complete_weights w \<longleftrightarrow>
     {''in_degree'', ''out_degree'', ''centrality'', ''churn'', ''loc''} \<subseteq> fst ` set w"

section \<open>Health metrics\<close>

record health_metrics =
  health_score :: real
  health_grade :: string
  fragility_score :: real
  density :: real
  cycle_free :: bool
  well_layered :: bool
  loosely_coupled :: bool
  no_god_objects :: bool

definition graph_density :: "graph \<Rightarrow> real" where
  "graph_density import_graph =
     (let nodes_count = int (length (get_nodes import_graph));
          edges_count = int (length (get_edges import_graph));
          max_edges = (if nodes_count > 1 then nodes_count * (nodes_count - 1) else 1)
      in if max_edges > 0 then real_of_int edges_count / real_of_int max_edges else 0)"

text \<open>
  The first element of an optional list argument, where the source guards
  \<^verbatim>\<open>xs[0]\<close> by the truthiness of \<^verbatim>\<open>xs\<close>.
\<close>

definition first_of :: "'a list option \<Rightarrow> 'a option" where
  "first_of x = (case x of None \<Rightarrow> None | Some [] \<Rightarrow> None | Some (y # ys) \<Rightarrow> Some y)"

text \<open>\<^verbatim>\<open>len(xs)\<close> of an optional list argument that is not \<^verbatim>\<open>None\<close>.\<close>

definition len_of :: "'a list option \<Rightarrow> int" where
  "len_of x = (case x of None \<Rightarrow> 0 | Some xs \<Rightarrow> int (length xs))"

definition cycle_penalty :: "cycle list option \<Rightarrow> real" where
  "cycle_penalty cycles =
     (if truthy cycles then real_of_int (min (len_of cycles * 5) 30) else 0)"

definition density_penalty :: "real \<Rightarrow> real" where
  "density_penalty d = (if d > 3 / 10 then min ((d - 3 / 10) * 100) 20 else 0)"

definition hotspot_penalty :: "hotspot list option \<Rightarrow> real" where
  "hotspot_penalty hotspots =
     (case first_of hotspots of
        None \<Rightarrow> 0
      | Some h0 \<Rightarrow>
          if h_in_degree h0 > 50 then real_of_int (min (h_in_degree h0 div 10) 20) else 0)"

definition grade :: "real \<Rightarrow> string" where
  "grade s =
     (if s \<ge> 90 then ''A'' else if s \<ge> 80 then ''B'' else if s \<ge> 70 then ''C''
      else if s \<ge> 60 then ''D'' else ''F'')"

definition fragility :: "real \<Rightarrow> cycle list option \<Rightarrow> hotspot list option \<Rightarrow> real" where
  "fragility d cycles hotspots =
     (let f0 = 0;
          f1 = (case first_of hotspots of
                  None \<Rightarrow> f0
                | Some h0 \<Rightarrow> f0 + min (h_score h0 * 10) 40);
          f2 = (if truthy cycles then f1 + real_of_int (min (len_of cycles * 3) 30) else f1)
      in f2 + min (d * 100) 30)"

fun int_keys :: "layer_key list \<Rightarrow> int list option" where
  "int_keys [] = Some []"
| "int_keys (IntKey i # ks) = (case int_keys ks of None \<Rightarrow> None | Some is \<Rightarrow> Some (i # is))"
| "int_keys (StrKey s # ks) = None"

text \<open>
  \<^verbatim>\<open>len(layers) > 2 and max(layers.keys()) < 10 if layers else False\<close>. With more than
  two layers the keys are compared with each other and their maximum with \<^verbatim>\<open>10\<close>: a
  string among them raises \<^verbatim>\<open>TypeError\<close>.
\<close>

definition is_well_layered :: "layers option \<Rightarrow> error + bool" where
  "is_well_layered layers =
     (if truthy layers then
        (if len_of layers > 2 then
           (case int_keys (map fst (case layers of None \<Rightarrow> [] | Some ls \<Rightarrow> ls)) of
              None \<Rightarrow> Inl TypeError
            | Some [] \<Rightarrow> Inr False
            | Some (k # ks) \<Rightarrow> Inr (py_max k ks < 10))
         else Inr False)
      else Inr False)"

definition calculate_health_metrics :: "graph \<Rightarrow> cycle list option \<Rightarrow> hotspot list option
    \<Rightarrow> layers option \<Rightarrow> error + health_metrics" where
  "calculate_health_metrics import_graph cycles hotspots layers =
     (let d = graph_density import_graph;
          score = 100 - cycle_penalty cycles - density_penalty d - hotspot_penalty hotspots
      in bindE (is_well_layered layers)
           (\<lambda>wl.
              Inr \<lparr>health_score = max score 0,
                  health_grade = grade score,
                  fragility_score = min (fragility d cycles hotspots) 100,
                  density = d,
                  cycle_free = (if truthy cycles then len_of cycles = 0 else True),
                  well_layered = wl,
                  loosely_coupled = (d < 2 / 10),
                  no_god_objects =
                     (case first_of hotspots of None \<Rightarrow> True | Some h0 \<Rightarrow> h_in_degree h0 < 30)\<rparr>))"

section \<open>Recommendations\<close>

text \<open>Decimal rendering of an integer, as an f-string does it.\<close>

fun str_nat :: "nat \<Rightarrow> string" where
  "str_nat n =
     (if n < 10 then [''0123456789'' ! n]
      else str_nat (n div 10) @ [''0123456789'' ! (n mod 10)])"

definition str_int :: "int \<Rightarrow> string" where
  "str_int i = (if i < 0 then ''-'' @ str_nat (nat (- i)) else str_nat (nat i))"

definition cycle_message :: "int \<Rightarrow> string" where
  "cycle_message n = ''Break '' @ str_int n @ '' dependency cycles to improve maintainability''"

text \<open>
  The rendering \<^verbatim>\<open>"{:.2f}".format(density)\<close> of a float belongs to the language, not to
  this module: it is the parameter \<open>fmt\<close>.
\<close>

definition coupling_message :: "(real \<Rightarrow> string) \<Rightarrow> real \<Rightarrow> string" where
  "coupling_message fmt d =
     ''Reduce coupling between modules (current density: '' @ fmt d @ '')''"

definition hotspot_message :: "hotspot \<Rightarrow> string" where
  "hotspot_message h =
     ''Refactor hotspot '' @ [CHR 0x27] @ h_id h @ [CHR 0x27] @ '' with ''
       @ str_int (h_in_degree h) @ '' dependencies''"

definition layering_message :: string where
  "layering_message = ''Consider introducing more architectural layers for better separation''"

definition generate_recommendations :: "(real \<Rightarrow> string) \<Rightarrow> graph \<Rightarrow> cycle list option
    \<Rightarrow> hotspot list option \<Rightarrow> layers option \<Rightarrow> string list" where
  "generate_recommendations fmt import_graph cycles hotspots layers =
     (let d = graph_density import_graph;
          r0 = [];
          r1 = (if truthy cycles \<and> len_of cycles > 0
                then r0 @ [cycle_message (len_of cycles)] else r0);
          r2 = (if d > 3 / 10 then r1 @ [coupling_message fmt d] else r1);
          r3 = (case first_of hotspots of
                  None \<Rightarrow> r2
                | Some h0 \<Rightarrow> if h_in_degree h0 > 30 then r2 @ [hotspot_message h0] else r2);
          r4 = (if truthy layers \<and> len_of layers \<le> 2 then r3 @ [layering_message] else r3)
      in r4)"

section \<open>Summary\<close>

record import_stats =
  is_nodes :: int
  is_edges :: int
  is_density :: real

record call_stats =
  cs_nodes :: int
  cs_edges :: int

record cycle_stats =
  cy_total :: int
  cy_largest :: int
  cy_nodes_in_cycles :: int

record hotspot_stats =
  hs_top_5 :: "string list"
  hs_max_in_degree :: int
  hs_max_out_degree :: int

record layer_stats =
  ly_count :: int
  ly_distribution :: "(layer_key \<times> int) list"

record summary =
  s_import_graph :: import_stats
  s_call_graph :: "call_stats option"
  s_cycles :: cycle_stats
  s_hotspots :: hotspot_stats
  s_layers :: layer_stats
  s_health_metrics :: health_metrics
  s_recommendations :: "string list"

text \<open>\<^verbatim>\<open>max(xs, default=0)\<close>.\<close>

definition max_default :: "int list \<Rightarrow> int" where
  "max_default xs = (case xs of [] \<Rightarrow> 0 | y # ys \<Rightarrow> py_max y ys)"

definition summarize_cycles :: "cycle list \<Rightarrow> cycle_stats" where
  "summarize_cycles cycles =
     \<lparr>cy_total = int (length cycles),
      cy_largest = (case cycles of [] \<Rightarrow> 0 | c # cs \<Rightarrow> c_size c),
      cy_nodes_in_cycles = int (length (remdups (concat (map c_nodes cycles))))\<rparr>"

text \<open>
  The analyzer \<^verbatim>\<open>XGraphAnalyzer\<close> of \<^verbatim>\<open>theauditor.graph.analyzer\<close> is an external
  collaborator: its methods \<^verbatim>\<open>detect_cycles\<close> and \<^verbatim>\<open>identify_layers\<close> are parameters.
\<close>

definition summarize :: "(real \<Rightarrow> string) \<Rightarrow> (graph \<Rightarrow> cycle list) \<Rightarrow> (graph \<Rightarrow> layers)
    \<Rightarrow> weights \<Rightarrow> graph \<Rightarrow> graph option \<Rightarrow> cycle list option \<Rightarrow> hotspot list option
    \<Rightarrow> error + summary" where
  "summarize fmt detect_cycles identify_layers w import_graph call_graph cycles hotspots =
     (let ig_stats = \<lparr>is_nodes = int (length (get_nodes import_graph)),
                      is_edges = int (length (get_edges import_graph)),
                      is_density = graph_density import_graph\<rparr>;
          cg_stats = (case call_graph of
                        None \<Rightarrow> None
                      | Some cg \<Rightarrow>
                          if graph_truthy call_graph
                          then Some \<lparr>cs_nodes = int (length (get_nodes cg)),
                                     cs_edges = int (length (get_edges cg))\<rparr>
                          else None);
          cycles1 = (case cycles of None \<Rightarrow> detect_cycles import_graph | Some cs \<Rightarrow> cs)
      in bindE (case hotspots of
                  None \<Rightarrow> rank_hotspots w import_graph call_graph
                | Some hs \<Rightarrow> Inr hs)
           (\<lambda>hotspots1.
              let layers = identify_layers import_graph
              in bindE (calculate_health_metrics import_graph (Some cycles1) (Some hotspots1)
                          (Some layers))
                   (\<lambda>health.
                      Inr \<lparr>s_import_graph = ig_stats,
                           s_call_graph = cg_stats,
                           s_cycles = summarize_cycles cycles1,
                           s_hotspots =
                             \<lparr>hs_top_5 = map h_id (take 5 hotspots1),
                              hs_max_in_degree = max_default (map h_in_degree hotspots1),
                              hs_max_out_degree = max_default (map h_out_degree hotspots1)\<rparr>,
                           s_layers =
                             \<lparr>ly_count = int (length layers),
                              ly_distribution = map (\<lambda>(k, v). (k, int (length v))) layers\<rparr>,
                           s_health_metrics = health,
                           s_recommendations =
                             generate_recommendations fmt import_graph (Some cycles1)
                               (Some hotspots1) (Some layers)\<rparr>)))"

section \<open>The centrality iteration as the specification words it\<close>

text \<open>
  The nodes referenced by any edge, the adjacency \<open>adj[s]\<close> as the list of targets of the
  edges leaving \<open>s\<close>, and one synchronous update
  \<open>new_score[n] = (1 - 0.85) + 0.85 * sum over s with n in adj[s] of score[s] / max(|adj[s]|, 1)\<close>
  of all scores at once. These follow the specification, not the source; the theorems
  compare the embedding of the source with them.
\<close>

definition endpoints :: "edge list \<Rightarrow> string set" where
  "endpoints es = e_source ` set es \<union> e_target ` set es"

definition targets_of :: "edge list \<Rightarrow> string \<Rightarrow> string list" where
  "targets_of es s = map e_target (filter (\<lambda>e. e_source e = s) es)"

definition spec_step :: "edge list \<Rightarrow> (string \<Rightarrow> real) \<Rightarrow> string \<Rightarrow> real" where
  "spec_step es score n =
     (1 - 85 / 100)
     + 85 / 100 * (\<Sum>s \<in> {s \<in> endpoints es. n \<in> set (targets_of es s)}.
                     score s / real (max (length (targets_of es s)) 1))"

section \<open>Example inputs\<close>

text \<open>The graph with nodes A, B, C (no churn, no loc), edges A-B, B-C, C-A, and its one cycle.\<close>

definition triangle :: graph where
  "triangle =
     \<lparr>g_nodes = Some [\<lparr>n_id = ''A'', n_churn = None, n_loc = None\<rparr>,
                      \<lparr>n_id = ''B'', n_churn = None, n_loc = None\<rparr>,
                      \<lparr>n_id = ''C'', n_churn = None, n_loc = None\<rparr>],
      g_edges = Some [\<lparr>e_source = ''A'', e_target = ''B''\<rparr>,
                      \<lparr>e_source = ''B'', e_target = ''C''\<rparr>,
                      \<lparr>e_source = ''C'', e_target = ''A''\<rparr>]\<rparr>"

definition triangle_cycles :: "cycle list option" where
  "triangle_cycles = Some [\<lparr>c_nodes = [''A'', ''B'', ''C''], c_size = 3\<rparr>]"

text \<open>The empty graph dictionary, and a hotspot record with a negative score.\<close>

definition empty_graph :: graph where
  "empty_graph = \<lparr>g_nodes = None, g_edges = None\<rparr>"

definition negative_hotspot :: hotspot where
  "negative_hotspot = \<lparr>h_id = ''X'', h_in_degree = 0, h_out_degree = 0, h_centrality = 0,
     h_churn = 0, h_loc = 0, h_score = - 1\<rparr>"

text \<open>
  A graph whose single node carries a negative \<open>loc\<close>, and the hotspot record that
  \<open>rank_hotspots\<close> makes of it under the default weights.
\<close>

definition shrunk_graph :: graph where
  "shrunk_graph =
     \<lparr>g_nodes = Some [\<lparr>n_id = ''X'', n_churn = None, n_loc = Some (- 100000)\<rparr>],
      g_edges = Some []\<rparr>"

definition shrunk_hotspot :: hotspot where
  "shrunk_hotspot = \<lparr>h_id = ''X'', h_in_degree = 0, h_out_degree = 0, h_centrality = 0,
     h_churn = 0, h_loc = - 100000, h_score = - 10\<rparr>"

text \<open>
  Five nodes and eight edges (density 0.4), a hotspot record with in-degree 40, and a layer
  dictionary with two entries.
\<close>

definition coupled_graph :: graph where
  "coupled_graph =
     \<lparr>g_nodes = Some [\<lparr>n_id = ''A'', n_churn = None, n_loc = None\<rparr>,
                      \<lparr>n_id = ''B'', n_churn = None, n_loc = None\<rparr>,
                      \<lparr>n_id = ''C'', n_churn = None, n_loc = None\<rparr>,
                      \<lparr>n_id = ''D'', n_churn = None, n_loc = None\<rparr>,
                      \<lparr>n_id = ''E'', n_churn = None, n_loc = None\<rparr>],
      g_edges = Some [\<lparr>e_source = ''B'', e_target = ''A''\<rparr>,
                      \<lparr>e_source = ''C'', e_target = ''A''\<rparr>,
                      \<lparr>e_source = ''D'', e_target = ''A''\<rparr>,
                      \<lparr>e_source = ''E'', e_target = ''A''\<rparr>,
                      \<lparr>e_source = ''A'', e_target = ''B''\<rparr>,
                      \<lparr>e_source = ''A'', e_target = ''C''\<rparr>,
                      \<lparr>e_source = ''A'', e_target = ''D''\<rparr>,
                      \<lparr>e_source = ''A'', e_target = ''E''\<rparr>]\<rparr>"

definition busy_hotspot :: hotspot where
  "busy_hotspot = \<lparr>h_id = ''A'', h_in_degree = 40, h_out_degree = 4, h_centrality = 1,
     h_churn = 0, h_loc = 0, h_score = 131 / 10\<rparr>"

definition two_layers :: layers where
  "two_layers = [(IntKey 0, [''A'']), (IntKey 1, [''B'', ''C'', ''D'', ''E''])]"

text \<open>
  A graph with the single edge A-B and a node C without edges; two cycles listed smallest first, and three listed
  largest first.
\<close>

definition pair_graph :: graph where
  "pair_graph =
     \<lparr>g_nodes = Some [\<lparr>n_id = ''A'', n_churn = None, n_loc = None\<rparr>,
                      \<lparr>n_id = ''B'', n_churn = None, n_loc = None\<rparr>,
                      \<lparr>n_id = ''C'', n_churn = None, n_loc = None\<rparr>],
      g_edges = Some [\<lparr>e_source = ''A'', e_target = ''B''\<rparr>]\<rparr>"

definition unsorted_cycles :: "cycle list" where
  "unsorted_cycles = [\<lparr>c_nodes = [''A'', ''B''], c_size = 2\<rparr>,
                      \<lparr>c_nodes = [''C'', ''D'', ''E''], c_size = 3\<rparr>]"

definition sorted_cycles :: "cycle list" where
  "sorted_cycles = [\<lparr>c_nodes = [''C'', ''D'', ''E''], c_size = 3\<rparr>,
                    \<lparr>c_nodes = [''A'', ''B'', ''C''], c_size = 3\<rparr>,
                    \<lparr>c_nodes = [''A'', ''B''], c_size = 2\<rparr>]"

text \<open>The ranked hotspots of the graph with the edge A-B under the default weights.\<close>

definition pair_hotspots :: "hotspot list" where
  "pair_hotspots =
     [\<lparr>h_id = ''B'', h_in_degree = 1, h_out_degree = 0, h_centrality = 1, h_churn = 0,
       h_loc = 0, h_score = 3 / 5\<rparr>,
      \<lparr>h_id = ''A'', h_in_degree = 0, h_out_degree = 1, h_centrality = 20 / 37, h_churn = 0,
       h_loc = 0, h_score = 67 / 185\<rparr>,
      \<lparr>h_id = ''C'', h_in_degree = 0, h_out_degree = 0, h_centrality = 0, h_churn = 0,
       h_loc = 0, h_score = 0\<rparr>]"

section \<open>Impact ratio: value and range\<close>

text \<open>
  What \<open>calculate_impact_ratio\<close> returns for a non-negative \<open>total_nodes\<close>: the quotient
  \<open>|impacted| / total_nodes\<close> (0 when \<open>total_nodes = 0\<close>), whatever the targets. The value
  is never negative; it is at most 1 when the impacted set has at most \<open>total_nodes\<close>
  elements, and nothing in the function enforces that.
\<close>

lemma impact_ratio_value_and_range:
  assumes "0 \<le> total_nodes"
  shows "calculate_impact_ratio targets all_impacted total_nodes =
           (if total_nodes = 0 then 0 else real (fcard all_impacted) / real_of_int total_nodes)
         \<and> 0 \<le> calculate_impact_ratio targets all_impacted total_nodes
         \<and> (int (fcard all_impacted) \<le> total_nodes \<longrightarrow>
              calculate_impact_ratio targets all_impacted total_nodes \<le> 1)"
proof -
  let ?r = "calculate_impact_ratio targets all_impacted total_nodes"
  have eq: "?r = (if total_nodes = 0 then 0 else real (fcard all_impacted) / real_of_int total_nodes)"
    by (simp add: calculate_impact_ratio_def)
  have lo: "0 \<le> ?r"
    using assms by (simp add: calculate_impact_ratio_def)
  have hi: "?r \<le> 1" if le: "int (fcard all_impacted) \<le> total_nodes"
  proof (cases "total_nodes = 0")
    case True
    then show ?thesis by (simp add: calculate_impact_ratio_def)
  next
    case False
    with assms have pos: "0 < real_of_int total_nodes" by simp
    from le have "real (fcard all_impacted) \<le> real_of_int total_nodes"
      by (metis of_int_le_iff of_int_of_nat_eq)
    with pos False show ?thesis
      by (simp add: calculate_impact_ratio_def)
  qed
  from eq lo hi show ?thesis by blast
qed

text \<open>
  Claim C3: \<open>calculate_impact_ratio\<close> returns \<open>|impacted| / total_nodes\<close> and the value
  lies in \<open>[0, 1]\<close>, as its docstring also promises (\<open>Returns: Impact ratio [0, 1]\<close>).
  The code does not keep the promise: with two impacted nodes and \<open>total_nodes = 1\<close> it
  returns 2.
\<close>

theorem impact_ratio_unbounded:
  "calculate_impact_ratio [''a''] {|''a'', ''b''|} 1 = 2
   \<and> \<not> (calculate_impact_ratio [''a''] {|''a'', ''b''|} 1 \<le> 1)"
  by (simp add: calculate_impact_ratio_def fcard_finsert_if)

section \<open>Health metrics of the triangle\<close>

text \<open>
  Claim C6: for the graph with nodes A, B, C, edges A-B, B-C, C-A and one supplied cycle of
  size 3, the density is 0.5, the cycle penalty is 5, the density penalty is
  \<open>min ((0.5 - 0.3) * 100) 20 = 20\<close>, and \<open>calculate_health_metrics\<close> returns
  \<open>health_score = 75\<close> with \<open>health_grade = "C"\<close>.
\<close>

theorem triangle_health:
  "graph_density triangle = 1 / 2
   \<and> cycle_penalty triangle_cycles = 5
   \<and> density_penalty (graph_density triangle) = min ((1 / 2 - 3 / 10) * 100) 20
   \<and> density_penalty (graph_density triangle) = 20
   \<and> calculate_health_metrics triangle triangle_cycles None None =
       Inr \<lparr>health_score = 75, health_grade = ''C'', fragility_score = 33, density = 1 / 2,
            cycle_free = False, well_layered = False, loosely_coupled = False,
            no_god_objects = True\<rparr>"
proof -
  have d: "graph_density triangle = 1 / 2"
    by (simp add: graph_density_def triangle_def get_nodes_def get_edges_def)
  have c: "cycle_penalty triangle_cycles = 5"
    by (simp add: cycle_penalty_def triangle_cycles_def truthy_def len_of_def)
  have p: "density_penalty (1 / 2) = 20"
    by (simp add: density_penalty_def)
  have h: "hotspot_penalty None = 0"
    by (simp add: hotspot_penalty_def first_of_def)
  have f: "fragility (1 / 2) triangle_cycles None = 33"
    by (simp add: fragility_def first_of_def triangle_cycles_def truthy_def len_of_def)
  have w: "is_well_layered None = Inr False"
    by (simp add: is_well_layered_def truthy_def)
  have m: "calculate_health_metrics triangle triangle_cycles None None =
       Inr \<lparr>health_score = 75, health_grade = ''C'', fragility_score = 33, density = 1 / 2,
            cycle_free = False, well_layered = False, loosely_coupled = False,
            no_god_objects = True\<rparr>"
    unfolding calculate_health_metrics_def Let_def d c p h f w bindE_def
    by (simp add: grade_def first_of_def triangle_cycles_def truthy_def len_of_def)
  from p have p': "density_penalty (graph_density triangle) = 20"
    by (simp only: d)
  have q: "min ((1 / 2 - 3 / 10) * 100) (20::real) = 20"
    by simp
  from d c p' q m show ?thesis
    by (simp only: simp_thms)
qed

section \<open>Range of the health and fragility scores\<close>

lemma graph_density_nonneg: "0 \<le> graph_density g"
  by (simp add: graph_density_def Let_def)

lemma cycle_penalty_bounds: "0 \<le> cycle_penalty cs \<and> cycle_penalty cs \<le> 30"
  by (simp add: cycle_penalty_def len_of_def split: option.splits)

lemma density_penalty_bounds: "0 \<le> density_penalty d \<and> density_penalty d \<le> 20"
  by (simp add: density_penalty_def)

lemma hotspot_penalty_bounds: "0 \<le> hotspot_penalty hs \<and> hotspot_penalty hs \<le> 20"
  by (auto simp add: hotspot_penalty_def pos_imp_zdiv_nonneg_iff split: option.splits)

lemma fragility_lower:
  assumes "\<And>h. first_of hs = Some h \<Longrightarrow> 0 \<le> h_score h" and "0 \<le> d"
  shows "0 \<le> fragility d cs hs"
  using assms
  by (auto simp add: fragility_def Let_def len_of_def split: option.splits)

text \<open>
  What holds of every returned record: the health score lies in \<open>[0, 100]\<close>, the
  fragility score is at most 100, and it is not negative when the score of the top hotspot,
  if there is one, is not negative.
\<close>

lemma health_and_fragility_range:
  assumes "calculate_health_metrics import_graph cycles hotspots layers = Inr m"
  shows "0 \<le> health_score m \<and> health_score m \<le> 100 \<and> fragility_score m \<le> 100
         \<and> ((\<forall>h. first_of hotspots = Some h \<longrightarrow> 0 \<le> h_score h) \<longrightarrow> 0 \<le> fragility_score m)"
proof -
  let ?d = "graph_density import_graph"
  let ?s = "100 - cycle_penalty cycles - density_penalty ?d - hotspot_penalty hotspots"
  from assms obtain wl where m: "m = \<lparr>health_score = max ?s 0,
                  health_grade = grade ?s,
                  fragility_score = min (fragility ?d cycles hotspots) 100,
                  density = ?d,
                  cycle_free = (if truthy cycles then len_of cycles = 0 else True),
                  well_layered = wl,
                  loosely_coupled = (?d < 2 / 10),
                  no_god_objects =
                     (case first_of hotspots of None \<Rightarrow> True | Some h0 \<Rightarrow> h_in_degree h0 < 30)\<rparr>"
    by (auto simp add: calculate_health_metrics_def Let_def bindE_def split: sum.splits)
  have hs: "health_score m = max ?s 0" and fs: "fragility_score m = min (fragility ?d cycles hotspots) 100"
    by (simp_all add: m)
  have "?s \<le> 100"
    using cycle_penalty_bounds [of cycles] density_penalty_bounds [of ?d]
      hotspot_penalty_bounds [of hotspots] by linarith
  then have h: "0 \<le> health_score m \<and> health_score m \<le> 100"
    by (simp add: hs)
  have f1: "fragility_score m \<le> 100"
    by (simp add: fs)
  have f2: "0 \<le> fragility_score m" if "\<forall>h. first_of hotspots = Some h \<longrightarrow> 0 \<le> h_score h"
    using fragility_lower [of hotspots ?d cycles] that graph_density_nonneg [of import_graph]
    by (simp add: fs)
  from h f1 f2 show ?thesis by blast
qed

text \<open>
  Claim C5: for every input, the record returned by \<open>calculate_health_metrics\<close> has
  \<open>0 \<le> health_score \<le> 100\<close> and \<open>0 \<le> fragility_score \<le> 100\<close>. The source announces
  the fragility as a score \<open>(0-100, higher is worse)\<close> and floors the health score with
  \<open>max(health_score, 0)\<close>, but the fragility is only capped: \<open>min(fragility, 100)\<close>. A top
  hotspot with score \<open>-1\<close> on the empty graph gives the fragility \<open>-10\<close>; and
  \<open>rank_hotspots\<close> itself, under the default weights, ranks a node whose \<open>loc\<close> is
  \<open>-100000\<close> with score \<open>-10\<close>, for which the fragility is \<open>-100\<close>.
\<close>

theorem fragility_negative:
  "(case calculate_health_metrics empty_graph None (Some [negative_hotspot]) None of
      Inl e \<Rightarrow> False
    | Inr m \<Rightarrow> fragility_score m = - 10 \<and> \<not> 0 \<le> fragility_score m)
   \<and> rank_hotspots DEFAULT_WEIGHTS shrunk_graph None = Inr [shrunk_hotspot]
   \<and> h_score shrunk_hotspot = - 10
   \<and> (case calculate_health_metrics shrunk_graph None (Some [shrunk_hotspot]) None of
        Inl e \<Rightarrow> False
      | Inr m \<Rightarrow> fragility_score m = - 100 \<and> \<not> 0 \<le> fragility_score m)"
proof -
  have a: "(case calculate_health_metrics empty_graph None (Some [negative_hotspot]) None of
      Inl e \<Rightarrow> False
    | Inr m \<Rightarrow> fragility_score m = - 10 \<and> \<not> 0 \<le> fragility_score m)"
    by (simp add: calculate_health_metrics_def empty_graph_def negative_hotspot_def
        graph_density_def get_nodes_def get_edges_def cycle_penalty_def density_penalty_def
        hotspot_penalty_def first_of_def truthy_def fragility_def is_well_layered_def bindE_def
        grade_def)
  have e: "get_edges shrunk_graph = []"
    and n: "get_nodes shrunk_graph = [\<lparr>n_id = ''X'', n_churn = None, n_loc = Some (- 100000)\<rparr>]"
    by (simp_all add: shrunk_graph_def get_edges_def get_nodes_def)
  have c: "calculate_centrality shrunk_graph = Inr []"
    by (simp add: calculate_centrality_def e power_iteration_def build_def iterations_def
        numeral_eq_Suc iteration_def bindE_def normalize_scores_def)
  have d: "count_degrees shrunk_graph None = (\<lambda>_. 0, \<lambda>_. 0)"
    by (simp add: count_degrees_def e)
  have w: "weighted_score DEFAULT_WEIGHTS 0 0 0 0 (- 100000) = Inr (- 10)"
    by (simp add: weighted_score_def DEFAULT_WEIGHTS_def dict_subscript_def bindE_def)
  have u: "unsorted_hotspots DEFAULT_WEIGHTS shrunk_graph None = Inr [shrunk_hotspot]"
    by (simp add: unsorted_hotspots_def d c n bindE_def hotspot_of_def w dict_get_def
        or_zero_def shrunk_hotspot_def)
  have r: "rank_hotspots DEFAULT_WEIGHTS shrunk_graph None = Inr [shrunk_hotspot]"
    by (simp add: rank_hotspots_def u bindE_def sort_by_score_desc_def)
  have s: "h_score shrunk_hotspot = - 10"
    by (simp add: shrunk_hotspot_def)
  have b: "(case calculate_health_metrics shrunk_graph None (Some [shrunk_hotspot]) None of
        Inl e \<Rightarrow> False
      | Inr m \<Rightarrow> fragility_score m = - 100 \<and> \<not> 0 \<le> fragility_score m)"
    by (simp add: calculate_health_metrics_def graph_density_def e n cycle_penalty_def
        density_penalty_def hotspot_penalty_def first_of_def truthy_def fragility_def
        is_well_layered_def bindE_def grade_def shrunk_hotspot_def)
  from a r s b show ?thesis
    by (intro conjI)
qed

section \<open>Recommendation rules\<close>

text \<open>
  Claim C4 says that the layering suggestion is emitted whenever the layer count is at most
  2. The rule is guarded by the truthiness of \<open>layers\<close>: an empty layer dictionary has
  count 0 and gets no suggestion.
\<close>

theorem layering_needs_a_layer:
  "len_of (Some ([] :: layers)) \<le> 2
   \<and> layering_message \<notin> set (generate_recommendations (\<lambda>d. []) empty_graph None None (Some []))"
  by (simp add: generate_recommendations_def len_of_def truthy_def first_of_def empty_graph_def
      graph_density_def get_nodes_def get_edges_def)

text \<open>
  Claim C4, as amended: \<open>generate_recommendations\<close> emits at most one string per rule, in
  the fixed order cycle-breaking (if cycles are present), coupling-reduction (if the density
  exceeds 0.3), hotspot-refactor (if the top hotspot's in-degree exceeds 30), then the
  layering suggestion whenever the layer count is 1 or 2. In particular, with cycles
  present, density 0.4, top hotspot in-degree 40 and exactly 2 layers it returns exactly the
  4 strings in that order, and it returns the empty list when no rule fires.
\<close>

theorem recommendation_rules:
  "generate_recommendations fmt g cycles hotspots layers =
     (if truthy cycles then [cycle_message (len_of cycles)] else [])
     @ (if graph_density g > 3 / 10 then [coupling_message fmt (graph_density g)] else [])
     @ (case first_of hotspots of
          None \<Rightarrow> []
        | Some h \<Rightarrow> if h_in_degree h > 30 then [hotspot_message h] else [])
     @ (if 1 \<le> len_of layers \<and> len_of layers \<le> 2 then [layering_message] else [])
   \<and> (truthy cycles \<and> graph_density g = 4 / 10 \<and> first_of hotspots = Some h0
        \<and> h_in_degree h0 = 40 \<and> len_of layers = 2 \<longrightarrow>
      generate_recommendations fmt g cycles hotspots layers =
        [cycle_message (len_of cycles), coupling_message fmt (4 / 10), hotspot_message h0,
         layering_message])
   \<and> (\<not> truthy cycles \<and> \<not> graph_density g > 3 / 10
        \<and> (\<forall>h. first_of hotspots = Some h \<longrightarrow> \<not> h_in_degree h > 30)
        \<and> \<not> (1 \<le> len_of layers \<and> len_of layers \<le> 2) \<longrightarrow>
      generate_recommendations fmt g cycles hotspots layers = [])"
proof -
  have pos: "truthy cycles \<Longrightarrow> len_of cycles > 0"
    by (cases cycles) (simp_all add: truthy_def len_of_def)
  have lay: "truthy layers \<longleftrightarrow> 1 \<le> len_of layers"
    by (cases layers) (auto simp add: truthy_def len_of_def Suc_le_eq)
  have eq: "generate_recommendations fmt g cycles hotspots layers =
     (if truthy cycles then [cycle_message (len_of cycles)] else [])
     @ (if graph_density g > 3 / 10 then [coupling_message fmt (graph_density g)] else [])
     @ (case first_of hotspots of
          None \<Rightarrow> []
        | Some h \<Rightarrow> if h_in_degree h > 30 then [hotspot_message h] else [])
     @ (if 1 \<le> len_of layers \<and> len_of layers \<le> 2 then [layering_message] else [])"
    using pos by (simp add: generate_recommendations_def Let_def lay split: option.splits)
  have scenario: "generate_recommendations fmt g cycles hotspots layers =
        [cycle_message (len_of cycles), coupling_message fmt (4 / 10), hotspot_message h0,
         layering_message]"
    if "truthy cycles" and d: "graph_density g = 4 / 10" and "first_of hotspots = Some h0"
      and "h_in_degree h0 = 40" and "len_of layers = 2"
    unfolding eq d using that(1,3,4,5) by simp
  have silent: "generate_recommendations fmt g cycles hotspots layers = []"
    if "\<not> truthy cycles" and "\<not> graph_density g > 3 / 10"
      and "\<forall>h. first_of hotspots = Some h \<longrightarrow> \<not> h_in_degree h > 30"
      and "\<not> (1 \<le> len_of layers \<and> len_of layers \<le> 2)"
    unfolding eq using that by (simp split: option.splits)
  from eq scenario silent show ?thesis
    by blast
qed

text \<open>
  The amended claim on the five-node graph with one cycle, the hotspot of in-degree 40 and
  two layers, and on the empty graph with nothing supplied.
\<close>

theorem recommendation_rules_witness:
  "generate_recommendations (\<lambda>d. ''0.40'') coupled_graph triangle_cycles (Some [busy_hotspot])
     (Some two_layers) =
     [''Break 1 dependency cycles to improve maintainability'',
      ''Reduce coupling between modules (current density: 0.40)'',
      ''Refactor hotspot '' @ [CHR 0x27] @ ''A'' @ [CHR 0x27] @ '' with 40 dependencies'',
      ''Consider introducing more architectural layers for better separation'']
   \<and> generate_recommendations (\<lambda>d. ''0.00'') empty_graph None None None = []"
proof -
  have d: "graph_density coupled_graph = 4 / 10"
    by (simp add: graph_density_def coupled_graph_def get_nodes_def get_edges_def)
  have c: "truthy triangle_cycles" "len_of triangle_cycles = 1"
    by (simp_all add: truthy_def triangle_cycles_def len_of_def)
  have h: "first_of (Some [busy_hotspot]) = Some busy_hotspot" "h_in_degree busy_hotspot = 40"
    "h_id busy_hotspot = ''A''"
    by (simp_all add: first_of_def busy_hotspot_def)
  have l: "len_of (Some two_layers) = 2"
    by (simp add: len_of_def two_layers_def)
  have s: "str_int 1 = ''1''" "str_int 40 = ''40''"
    by (simp_all add: str_int_def)
  have d0: "graph_density empty_graph = 0"
    by (simp add: graph_density_def empty_graph_def get_nodes_def get_edges_def)
  have n: "\<not> truthy (None :: cycle list option)" "first_of (None :: hotspot list option) = None"
    "len_of (None :: layers option) = 0"
    by (simp_all add: truthy_def first_of_def len_of_def)
  have a: "generate_recommendations (\<lambda>d. ''0.40'') coupled_graph triangle_cycles
      (Some [busy_hotspot]) (Some two_layers) =
        [cycle_message (len_of triangle_cycles), coupling_message (\<lambda>d. ''0.40'') (4 / 10),
         hotspot_message busy_hotspot, layering_message]"
    using recommendation_rules [of "\<lambda>d. ''0.40''" coupled_graph triangle_cycles
        "Some [busy_hotspot]" "Some two_layers" busy_hotspot] d c h l
    by blast
  have b: "generate_recommendations (\<lambda>d. ''0.00'') empty_graph None None None = []"
    using recommendation_rules [of "\<lambda>d. ''0.00''" empty_graph None None None] d0 n
    by simp
  from a b show ?thesis
    by (simp add: c s h cycle_message_def coupling_message_def hotspot_message_def
        layering_message_def)
qed

section \<open>Cycle statistics of the summary\<close>

lemma health_without_layers:
  "\<exists>m. calculate_health_metrics g cs hs (Some []) = Inr m"
  by (simp add: calculate_health_metrics_def is_well_layered_def truthy_def bindE_def Let_def)

lemma summarize_empty:
  "\<exists>s. summarize (\<lambda>d. []) (\<lambda>g. []) (\<lambda>g. []) DEFAULT_WEIGHTS empty_graph None (Some cs) (Some [])
     = Inr s \<and> s_cycles s = summarize_cycles cs"
proof -
  obtain m where "calculate_health_metrics empty_graph (Some cs) (Some []) (Some []) = Inr m"
    using health_without_layers by blast
  then show ?thesis
    by (simp add: summarize_def Let_def bindE_def)
qed

lemma sorted_desc_first_is_Max:
  assumes "sorted_wrt (\<lambda>a b. c_size b \<le> c_size a) (c # cs)"
  shows "Max (c_size ` set (c # cs)) = c_size c"
proof (rule Max_eqI)
  show "finite (c_size ` set (c # cs))" by simp
  show "c_size c \<in> c_size ` set (c # cs)" by simp
  fix y assume "y \<in> c_size ` set (c # cs)"
  with assms show "y \<le> c_size c" by auto
qed

text \<open>
  Claim C2 says that \<open>largest\<close> is the size of the largest supplied cycle. The summary
  reads the size of the first cycle of the list: with a cycle of size 2 listed before one of
  size 3 it reports 2.
\<close>

theorem largest_is_first:
  "(case summarize (\<lambda>d. []) (\<lambda>g. []) (\<lambda>g. []) DEFAULT_WEIGHTS empty_graph None
           (Some unsorted_cycles) (Some []) of
      Inl e \<Rightarrow> False
    | Inr s \<Rightarrow> cy_largest (s_cycles s) = 2)
   \<and> Max (c_size ` set unsorted_cycles) = 3"
proof -
  obtain s where s: "summarize (\<lambda>d. []) (\<lambda>g. []) (\<lambda>g. []) DEFAULT_WEIGHTS empty_graph None
      (Some unsorted_cycles) (Some []) = Inr s" "s_cycles s = summarize_cycles unsorted_cycles"
    using summarize_empty [of unsorted_cycles] by blast
  have "cy_largest (summarize_cycles unsorted_cycles) = 2"
    by (simp add: summarize_cycles_def unsorted_cycles_def)
  moreover have "Max (c_size ` set unsorted_cycles) = 3"
    by (simp add: unsorted_cycles_def)
  ultimately show ?thesis
    by (simp add: s)
qed

text \<open>
  Claim C2, as amended: for every supplied list of cycles, the cycles entry of the summary
  produced by \<open>summarize\<close> has \<open>total\<close> equal to the number of cycles,
  \<open>nodes_in_cycles\<close> equal to the number of distinct node ids appearing in any cycle, and
  \<open>largest\<close> equal to the size of the first cycle of the list (0 when there are no cycles),
  which is the size of the largest cycle whenever the list is ordered by size, largest
  first.
\<close>

theorem cycle_statistics:
  assumes "summarize fmt detect_cycles identify_layers w import_graph call_graph (Some cycles)
             hotspots = Inr s"
  shows "cy_total (s_cycles s) = int (length cycles)
         \<and> cy_nodes_in_cycles (s_cycles s) = int (card (\<Union>c \<in> set cycles. set (c_nodes c)))
         \<and> cy_largest (s_cycles s) = (case cycles of [] \<Rightarrow> 0 | c # cs \<Rightarrow> c_size c)
         \<and> (cycles = [] \<longrightarrow> cy_largest (s_cycles s) = 0)
         \<and> (cycles \<noteq> [] \<and> sorted_wrt (\<lambda>a b. c_size b \<le> c_size a) cycles \<longrightarrow>
              cy_largest (s_cycles s) = Max (c_size ` set cycles))"
proof -
  from assms have sc: "s_cycles s = summarize_cycles cycles"
    by (auto simp add: summarize_def Let_def bindE_def split: sum.splits)
  have t: "cy_total (s_cycles s) = int (length cycles)"
    by (simp add: sc summarize_cycles_def)
  have "length (remdups (concat (map c_nodes cycles))) = card (set (concat (map c_nodes cycles)))"
    by (simp add: length_remdups_card_conv)
  then have n: "cy_nodes_in_cycles (s_cycles s) = int (card (\<Union>c \<in> set cycles. set (c_nodes c)))"
    by (simp add: sc summarize_cycles_def)
  have l: "cy_largest (s_cycles s) = (case cycles of [] \<Rightarrow> 0 | c # cs \<Rightarrow> c_size c)"
    by (simp add: sc summarize_cycles_def)
  have e: "cy_largest (s_cycles s) = 0" if "cycles = []"
    using that by (simp add: l)
  have m: "cy_largest (s_cycles s) = Max (c_size ` set cycles)"
    if "cycles \<noteq> []" and "sorted_wrt (\<lambda>a b. c_size b \<le> c_size a) cycles"
  proof -
    from that(1) obtain c cs where cs: "cycles = c # cs" by (cases cycles) auto
    with that(2) sorted_desc_first_is_Max [of c cs] show ?thesis
      by (simp only: l cs list.case)
  qed
  from t n l e m show ?thesis by blast
qed

text \<open>
  The amended claim on three cycles listed largest first, sharing nodes: the summary is
  returned, with total 3, five distinct nodes and largest 3.
\<close>

theorem cycle_statistics_witness:
  "(\<exists>s. summarize (\<lambda>d. []) (\<lambda>g. []) (\<lambda>g. []) DEFAULT_WEIGHTS empty_graph None
           (Some sorted_cycles) (Some []) = Inr s
        \<and> cy_total (s_cycles s) = 3 \<and> cy_nodes_in_cycles (s_cycles s) = 5
        \<and> cy_largest (s_cycles s) = 3)
   \<and> sorted_wrt (\<lambda>a b. c_size b \<le> c_size a) sorted_cycles
   \<and> Max (c_size ` set sorted_cycles) = 3"
proof -
  obtain s where s: "summarize (\<lambda>d. []) (\<lambda>g. []) (\<lambda>g. []) DEFAULT_WEIGHTS empty_graph None
      (Some sorted_cycles) (Some []) = Inr s"
    using summarize_empty [of sorted_cycles] by blast
  have srt: "sorted_wrt (\<lambda>a b. c_size b \<le> c_size a) sorted_cycles"
    by (simp add: sorted_cycles_def)
  have mx: "Max (c_size ` set sorted_cycles) = 3"
    by (simp add: sorted_cycles_def)
  have ne: "sorted_cycles \<noteq> []" "length sorted_cycles = 3"
    by (simp_all add: sorted_cycles_def)
  have un: "(\<Union>c \<in> set sorted_cycles. set (c_nodes c)) = {''A'', ''B'', ''C'', ''D'', ''E''}"
    by (auto simp add: sorted_cycles_def)
  have cd: "card {''A'', ''B'', ''C'', ''D'', ''E''} = 5"
    by simp
  from cycle_statistics [OF s] srt mx ne un cd
  have "cy_total (s_cycles s) = 3 \<and> cy_nodes_in_cycles (s_cycles s) = 5
        \<and> cy_largest (s_cycles s) = 3"
    by simp
  with s srt mx show ?thesis by blast
qed

section \<open>Centrality: the source against the specification\<close>

subsection \<open>The first loop\<close>

lemma build_step_pair:
  "build_step e (adj, ns) =
     (adj(e_source e := adj (e_source e) @ [e_target e]),
      set_add (e_target e) (set_add (e_source e) ns))"
  by (simp add: build_step_def)

lemma fold_build_step_adj:
  "fst (fold build_step es (adj, ns)) = (\<lambda>s. adj s @ targets_of es s)"
proof (induction es arbitrary: adj ns)
  case Nil
  then show ?case by (simp add: targets_of_def)
next
  case (Cons e es)
  have "fst (fold build_step (e # es) (adj, ns)) =
        (\<lambda>s. (adj(e_source e := adj (e_source e) @ [e_target e])) s @ targets_of es s)"
    by (simp only: fold_simps build_step_pair Cons.IH)
  also have "\<dots> = (\<lambda>s. adj s @ targets_of (e # es) s)"
    by (auto simp add: targets_of_def fun_eq_iff)
  finally show ?case .
qed

lemma set_set_add: "set (set_add x xs) = insert x (set xs)"
  by (auto simp add: set_add_def)

lemma distinct_set_add: "distinct xs \<Longrightarrow> distinct (set_add x xs)"
  by (simp add: set_add_def)

lemma fold_build_step_nodes:
  "set (snd (fold build_step es (adj, ns))) = set ns \<union> endpoints es
   \<and> (distinct ns \<longrightarrow> distinct (snd (fold build_step es (adj, ns))))"
proof (induction es arbitrary: adj ns)
  case Nil
  then show ?case by (simp add: endpoints_def)
next
  case (Cons e es)
  let ?ns = "set_add (e_target e) (set_add (e_source e) ns)"
  let ?adj = "adj(e_source e := adj (e_source e) @ [e_target e])"
  have f: "fold build_step (e # es) (adj, ns) = fold build_step es (?adj, ?ns)"
    by (simp only: fold_simps build_step_pair)
  have s: "set ?ns \<union> endpoints es = set ns \<union> endpoints (e # es)"
    by (auto simp add: set_set_add endpoints_def)
  have d: "distinct ns \<Longrightarrow> distinct ?ns"
    by (simp add: distinct_set_add)
  from Cons.IH [of ?adj ?ns]
  have "set (snd (fold build_step es (?adj, ?ns))) = set ?ns \<union> endpoints es"
    and "distinct ?ns \<longrightarrow> distinct (snd (fold build_step es (?adj, ?ns)))"
    by blast+
  with s d show ?case
    unfolding f by blast
qed

lemma build_adj: "fst (build es) = targets_of es"
  by (simp add: build_def fold_build_step_adj)

lemma build_nodes_set: "set (snd (build es)) = endpoints es"
  by (simp add: build_def fold_build_step_nodes)

lemma build_nodes_distinct: "distinct (snd (build es))"
  using fold_build_step_nodes [of es "\<lambda>_. []" "[]"] by (simp add: build_def)


subsection \<open>One iteration\<close>

lemma map_of_tabulated:
  "s \<in> set nodes \<Longrightarrow> map_of (map (\<lambda>n. (n, f n)) nodes) s = Some (f s)"
  by (induction nodes) auto

lemma subscript_tabulated:
  "s \<in> set nodes \<Longrightarrow> dict_subscript (map (\<lambda>n. (n, f n)) nodes) s = Inr (f s)"
  by (simp add: dict_subscript_def map_of_tabulated)

lemma contribution_tabulated:
  assumes "s \<in> set nodes"
  shows "contribution adj (map (\<lambda>n. (n, f n)) nodes) n s acc =
           Inr (acc + (if n \<in> set (adj s)
                       then damping * f s / real (max (length (adj s)) 1) else 0))"
proof (cases "n \<in> set (adj s)")
  case True
  then obtain a as where c: "adj s = a # as"
    by (cases "adj s") auto
  from True show ?thesis
    by (simp add: contribution_def c subscript_tabulated [OF assms] bindE_def max_def)
next
  case False
  then show ?thesis by (simp add: contribution_def)
qed

lemma foldE_contribution:
  assumes "set srcs \<subseteq> set nodes"
  shows "foldE (contribution adj (map (\<lambda>n. (n, f n)) nodes) n) srcs acc =
           Inr (acc + (\<Sum>s\<leftarrow>srcs. if n \<in> set (adj s)
                         then damping * f s / real (max (length (adj s)) 1) else 0))"
  using assms
proof (induction srcs arbitrary: acc)
  case Nil
  then show ?case by simp
next
  case (Cons s srcs)
  then have s: "s \<in> set nodes" and rest: "set srcs \<subseteq> set nodes" by auto
  show ?case
    by (simp add: contribution_tabulated [OF s] bindE_def Cons.IH [OF rest] add.assoc)
qed

lemma node_score_spec:
  assumes "distinct nodes" and "set nodes = endpoints es"
  shows "node_score (targets_of es) nodes (map (\<lambda>n. (n, f n)) nodes) n = Inr (spec_step es f n)"
proof -
  let ?h = "\<lambda>s. damping * f s / real (max (length (targets_of es s)) 1)"
  let ?g = "\<lambda>s. f s / real (max (length (targets_of es s)) 1)"
  let ?P = "\<lambda>s. n \<in> set (targets_of es s)"
  have "(\<Sum>s\<leftarrow>nodes. if ?P s then ?h s else 0) = (\<Sum>s \<in> set nodes. if ?P s then ?h s else 0)"
    by (rule sum_list_distinct_conv_sum_set [OF assms(1)])
  also have "\<dots> = (\<Sum>s \<in> {s \<in> set nodes. ?P s}. ?h s)"
    by (rule sum.inter_filter [symmetric]) simp
  also have "\<dots> = damping * (\<Sum>s \<in> {s \<in> set nodes. ?P s}. ?g s)"
    by (simp add: sum_distrib_left)
  finally have "(\<Sum>s\<leftarrow>nodes. if ?P s then ?h s else 0)
        = damping * (\<Sum>s \<in> {s \<in> endpoints es. ?P s}. ?g s)"
    by (simp only: assms(2))
  then show ?thesis
    by (simp add: node_score_def foldE_contribution spec_step_def damping_def)
qed

lemma dict_set_fresh: "k \<notin> fst ` set d \<Longrightarrow> dict_set k v d = d @ [(k, v)]"
  by (induction d) auto

lemma foldE_tabulate:
  assumes "\<And>n. score n = Inr (g n)" and "distinct ns" and "set ns \<inter> fst ` set acc = {}"
  shows "foldE (\<lambda>node new_scores. bindE (score node) (\<lambda>v. Inr (dict_set node v new_scores)))
           ns acc = Inr (acc @ map (\<lambda>n. (n, g n)) ns)"
  using assms(2,3)
proof (induction ns arbitrary: acc)
  case Nil
  then show ?case by simp
next
  case (Cons n ns)
  then have fresh: "n \<notin> fst ` set acc" and d: "distinct ns" and nn: "n \<notin> set ns"
    and rest: "set ns \<inter> fst ` set acc = {}"
    by auto
  from nn rest have "set ns \<inter> fst ` set (acc @ [(n, g n)]) = {}" by auto
  from Cons.IH [OF d this] show ?case
    by (simp add: assms(1) bindE_def dict_set_fresh [OF fresh])
qed

lemma iteration_spec:
  assumes "distinct nodes" and "set nodes = endpoints es"
  shows "iteration (targets_of es) nodes (map (\<lambda>n. (n, f n)) nodes) =
           Inr (map (\<lambda>n. (n, spec_step es f n)) nodes)"
  unfolding iteration_def
  using foldE_tabulate [of "node_score (targets_of es) nodes (map (\<lambda>n. (n, f n)) nodes)"
      "spec_step es f" nodes "[]"] node_score_spec [OF assms] assms(1)
  by simp

lemma iterate_spec:
  assumes "distinct nodes" and "set nodes = endpoints es"
  shows "iterate k (targets_of es) nodes (map (\<lambda>n. (n, f n)) nodes) =
           Inr (map (\<lambda>n. (n, (spec_step es ^^ k) f n)) nodes)"
proof (induction k arbitrary: f)
  case 0
  then show ?case by simp
next
  case (Suc k)
  show ?case
    by (simp add: iteration_spec [OF assms] bindE_def Suc.IH funpow_swap1)
qed

lemma power_iteration_spec:
  "power_iteration es =
     Inr (map (\<lambda>n. (n, (spec_step es ^^ 10) (\<lambda>n. 1) n)) (snd (build es)))"
proof -
  obtain adj ns where b: "build es = (adj, ns)"
    by (cases "build es")
  from b build_adj [of es] have adj: "adj = targets_of es" by simp
  from b have ns: "ns = snd (build es)" by simp
  have "power_iteration es = iterate iterations adj ns (map (\<lambda>n. (n, 1)) ns)"
    by (simp add: power_iteration_def b)
  then have "power_iteration es =
      iterate iterations (targets_of es) (snd (build es)) (map (\<lambda>n. (n, 1)) (snd (build es)))"
    by (simp only: adj ns)
  then show ?thesis
    by (simp add: iterate_spec [OF build_nodes_distinct build_nodes_set] iterations_def)
qed


subsection \<open>Normalisation\<close>

lemma normalize_keys: "map fst (normalize_scores scores) = map fst scores"
  by (cases scores) (auto simp add: normalize_scores_def Let_def split: prod.splits)

lemma py_max_Max: "py_max x xs = Max (set (x # xs))"
  unfolding py_max_def by (rule Max.set_eq_fold [symmetric])

lemma spec_step_positive:
  assumes "\<And>s. 0 \<le> f s"
  shows "0 < spec_step es f n"
proof -
  have "0 \<le> (\<Sum>s \<in> {s \<in> endpoints es. n \<in> set (targets_of es s)}.
                f s / real (max (length (targets_of es s)) 1))"
    by (rule sum_nonneg) (simp add: assms)
  then show ?thesis
    by (simp add: spec_step_def)
qed

lemma spec_iterate_positive: "0 < (spec_step es ^^ k) (\<lambda>n. 1) n"
proof (induction k arbitrary: n)
  case 0
  then show ?case by simp
next
  case (Suc k)
  have "\<And>s. 0 \<le> (spec_step es ^^ k) (\<lambda>n. 1) s"
    using Suc.IH by (simp add: less_imp_le)
  then show ?case
    by (simp add: spec_step_positive)
qed

lemma normalize_positive:
  assumes "scores \<noteq> []" and "\<And>v. v \<in> snd ` set scores \<Longrightarrow> 0 < v"
  shows "normalize_scores scores = map (\<lambda>(k, v). (k, v / Max (snd ` set scores))) scores"
    and "Max (snd ` set (normalize_scores scores)) = 1"
    and "\<And>v. v \<in> snd ` set (normalize_scores scores) \<Longrightarrow> 0 \<le> v \<and> v \<le> 1"
proof -
  let ?m = "Max (snd ` set scores)"
  from assms(1) obtain kv kvs where c: "scores = kv # kvs"
    by (cases scores) auto
  have fin: "finite (snd ` set scores)" and ne: "snd ` set scores \<noteq> {}"
    using assms(1) by simp_all
  have m_in: "?m \<in> snd ` set scores"
    using fin ne by (rule Max_in)
  then have m_pos: "0 < ?m"
    by (rule assms(2))
  have pm: "py_max (snd kv) (map snd kvs) = ?m"
    by (simp add: py_max_Max c)
  show n: "normalize_scores scores = map (\<lambda>(k, v). (k, v / ?m)) scores"
    using m_pos pm by (simp add: normalize_scores_def c Let_def)
  have vals: "snd ` set (normalize_scores scores) = (\<lambda>v. v / ?m) ` snd ` set scores"
    unfolding n by (force simp add: image_iff)
  have le: "v / ?m \<le> 1 \<and> 0 \<le> v / ?m" if "v \<in> snd ` set scores" for v
  proof -
    from that have "v \<le> ?m" using fin by (rule Max_ge [rotated])
    moreover from that have "0 < v" by (rule assms(2))
    ultimately show ?thesis using m_pos by simp
  qed
  show "Max (snd ` set (normalize_scores scores)) = 1"
  proof (rule Max_eqI)
    show "finite (snd ` set (normalize_scores scores))" by simp
    show "y \<le> 1" if "y \<in> snd ` set (normalize_scores scores)" for y
      using that le unfolding vals by auto
    have "?m / ?m \<in> (\<lambda>v. v / ?m) ` snd ` set scores"
      using m_in by (rule imageI)
    then show "1 \<in> snd ` set (normalize_scores scores)"
      using m_pos unfolding vals by simp
  qed
  show "0 \<le> v \<and> v \<le> 1" if "v \<in> snd ` set (normalize_scores scores)" for v
    using that le unfolding vals by auto
qed

lemma power_iteration_values:
  assumes "power_iteration es = Inr scores" and "v \<in> snd ` set scores"
  shows "0 < v"
proof -
  from assms(1) have "scores = map (\<lambda>n. (n, (spec_step es ^^ 10) (\<lambda>n. 1) n)) (snd (build es))"
    by (simp add: power_iteration_spec)
  with assms(2) show ?thesis
    by (auto simp add: spec_iterate_positive)
qed

lemma build_nodes_empty: "snd (build es) = [] \<longleftrightarrow> es = []"
proof -
  have "snd (build es) = [] \<longleftrightarrow> endpoints es = {}"
    using build_nodes_set [of es] by (metis set_empty)
  also have "\<dots> \<longleftrightarrow> es = []"
    by (simp add: endpoints_def)
  finally show ?thesis .
qed

text \<open>The centrality of the graph with the single edge A-B, by evaluation.\<close>

lemma pair_graph_centrality:
  "calculate_centrality pair_graph = Inr [(''A'', 20 / 37), (''B'', 1)]"
proof -
  have b: "build (get_edges pair_graph) = (targets_of (get_edges pair_graph), [''A'', ''B''])"
    using build_adj [of "get_edges pair_graph"]
    by (simp add: prod_eq_iff)
       (simp add: pair_graph_def get_edges_def build_def build_step_def set_add_def)
  have t: "targets_of (get_edges pair_graph) ''A'' = [''B'']"
    "targets_of (get_edges pair_graph) ''B'' = []"
    by (simp_all add: targets_of_def pair_graph_def get_edges_def)
  have "power_iteration (get_edges pair_graph) = Inr [(''A'', 3 / 20), (''B'', 111 / 400)]"
    by (simp add: power_iteration_def b iterations_def numeral_eq_Suc iteration_def
        node_score_def contribution_def t bindE_def dict_subscript_def damping_def)
  then show ?thesis
    by (simp add: calculate_centrality_def bindE_def normalize_scores_def py_max_def)
qed

text \<open>
  Claim C1: for every graph, \<open>_calculate_centrality\<close> takes its node set and adjacency
  from the edge list only (the node list plays no part, and the keys of the result are
  exactly the nodes some edge refers to), starts every such node at score 1, and runs
  exactly 10 synchronous iterations of
  \<open>new_score[n] = (1 - 0.85) + 0.85 * sum over s with n in adj[s] of score[s] / max(|adj[s]|, 1)\<close>;
  the result is the normalisation of these scores.
\<close>

theorem centrality_iteration:
  "\<exists>scores. power_iteration (get_edges g) = Inr scores
      \<and> calculate_centrality g = Inr (normalize_scores scores)
      \<and> distinct (map fst scores)
      \<and> fst ` set scores = endpoints (get_edges g)
      \<and> fst ` set (normalize_scores scores) = endpoints (get_edges g)
      \<and> (\<forall>n \<in> endpoints (get_edges g).
            map_of scores n = Some ((spec_step (get_edges g) ^^ 10) (\<lambda>n. 1) n))
      \<and> calculate_centrality (g\<lparr>g_nodes := ns\<rparr>) = calculate_centrality g"
proof -
  let ?es = "get_edges g"
  let ?f = "(spec_step ?es ^^ 10) (\<lambda>n. 1)"
  let ?scores = "map (\<lambda>n. (n, ?f n)) (snd (build ?es))"
  have p: "power_iteration ?es = Inr ?scores"
    by (rule power_iteration_spec)
  have c: "calculate_centrality g = Inr (normalize_scores ?scores)"
    by (simp add: calculate_centrality_def p bindE_def)
  have k: "map fst ?scores = snd (build ?es)"
    by (simp add: comp_def)
  have d: "distinct (map fst ?scores)"
    by (simp only: k build_nodes_distinct)
  have s: "fst ` set ?scores = endpoints ?es"
    using build_nodes_set [of ?es] by (simp add: image_image)
  have "fst ` set (normalize_scores ?scores) = set (map fst (normalize_scores ?scores))"
    by simp
  also have "\<dots> = set (snd (build ?es))"
    by (simp only: normalize_keys k)
  finally have s': "fst ` set (normalize_scores ?scores) = endpoints ?es"
    by (simp only: build_nodes_set)
  have m: "map_of ?scores n = Some (?f n)" if "n \<in> endpoints ?es" for n
  proof -
    from that have "n \<in> set (snd (build ?es))"
      by (simp add: build_nodes_set)
    then show ?thesis
      by (rule map_of_tabulated)
  qed
  have e: "get_edges (g\<lparr>g_nodes := ns\<rparr>) = ?es"
    by (simp add: get_edges_def)
  have i: "calculate_centrality (g\<lparr>g_nodes := ns\<rparr>) = calculate_centrality g"
    by (simp add: calculate_centrality_def e)
  from p c d s s' m i show ?thesis
    by blast
qed

text \<open>
  Claim C1 on the graph with the edge A-B and the isolated node C: B is scored by the ten
  iterations, C gets no entry.
\<close>

theorem centrality_iteration_witness:
  "''B'' \<in> endpoints (get_edges pair_graph)
   \<and> ''C'' \<notin> endpoints (get_edges pair_graph)
   \<and> (\<exists>scores. power_iteration (get_edges pair_graph) = Inr scores
          \<and> calculate_centrality pair_graph = Inr (normalize_scores scores)
          \<and> map_of scores ''B'' = Some ((spec_step (get_edges pair_graph) ^^ 10) (\<lambda>n. 1) ''B'')
          \<and> ''C'' \<notin> fst ` set (normalize_scores scores))
   \<and> calculate_centrality pair_graph = Inr [(''A'', 20 / 37), (''B'', 1)]"
proof -
  have e: "endpoints (get_edges pair_graph) = {''A'', ''B''}"
    by (auto simp add: endpoints_def pair_graph_def get_edges_def)
  have b: "''B'' \<in> endpoints (get_edges pair_graph)" and c: "''C'' \<notin> endpoints (get_edges pair_graph)"
    by (simp_all add: e)
  from centrality_iteration [of pair_graph None] obtain scores where
    p: "power_iteration (get_edges pair_graph) = Inr scores"
    and n: "calculate_centrality pair_graph = Inr (normalize_scores scores)"
    and k: "fst ` set (normalize_scores scores) = endpoints (get_edges pair_graph)"
    and m: "\<forall>n \<in> endpoints (get_edges pair_graph).
            map_of scores n = Some ((spec_step (get_edges pair_graph) ^^ 10) (\<lambda>n. 1) n)"
    by blast
  from m b have m': "map_of scores ''B'' =
      Some ((spec_step (get_edges pair_graph) ^^ 10) (\<lambda>n. 1) ''B'')"
    by (rule bspec)
  from k c have k': "''C'' \<notin> fst ` set (normalize_scores scores)"
    by (simp only: not_False_eq_True)
  from p n m' k' have "\<exists>scores. power_iteration (get_edges pair_graph) = Inr scores
          \<and> calculate_centrality pair_graph = Inr (normalize_scores scores)
          \<and> map_of scores ''B'' = Some ((spec_step (get_edges pair_graph) ^^ 10) (\<lambda>n. 1) ''B'')
          \<and> ''C'' \<notin> fst ` set (normalize_scores scores)"
    by (intro exI [of _ scores] conjI)
  with b c pair_graph_centrality show ?thesis
    by (intro conjI)
qed

section \<open>Centrality: the normalised values\<close>

text \<open>
  Claim C7: for every graph with at least one edge the centrality map is non-empty, its
  maximum is exactly 1 and every value lies in \<open>[0, 1]\<close>; for a graph without edges the
  map is empty; and whenever the scores before normalisation are non-empty their maximum is
  positive, so the branch that leaves them unnormalised is never taken.
\<close>

theorem centrality_normalized:
  "(get_edges g = [] \<longrightarrow> calculate_centrality g = Inr [])
   \<and> (get_edges g \<noteq> [] \<longrightarrow>
        (\<exists>c. calculate_centrality g = Inr c \<and> c \<noteq> [] \<and> Max (snd ` set c) = 1
            \<and> (\<forall>v \<in> snd ` set c. 0 \<le> v \<and> v \<le> 1)))
   \<and> (\<forall>kv kvs. power_iteration (get_edges g) = Inr (kv # kvs) \<longrightarrow>
         0 < py_max (snd kv) (map snd kvs))"
proof -
  let ?es = "get_edges g"
  let ?scores = "map (\<lambda>n. (n, (spec_step ?es ^^ 10) (\<lambda>n. 1) n)) (snd (build ?es))"
  have p: "power_iteration ?es = Inr ?scores"
    by (rule power_iteration_spec)
  have c: "calculate_centrality g = Inr (normalize_scores ?scores)"
    by (simp add: calculate_centrality_def p bindE_def)
  have pos: "0 < v" if "v \<in> snd ` set ?scores" for v
    using p that by (rule power_iteration_values)
  have none: "calculate_centrality g = Inr []" if "?es = []"
  proof -
    from that have "snd (build ?es) = []" by (simp only: build_nodes_empty)
    then show ?thesis by (simp add: c normalize_scores_def)
  qed
  have some: "\<exists>c. calculate_centrality g = Inr c \<and> c \<noteq> [] \<and> Max (snd ` set c) = 1
            \<and> (\<forall>v \<in> snd ` set c. 0 \<le> v \<and> v \<le> 1)" if "?es \<noteq> []"
  proof -
    from that have ne: "?scores \<noteq> []" by (simp add: build_nodes_empty)
    have "map fst (normalize_scores ?scores) \<noteq> []"
      using ne by (simp only: normalize_keys) simp
    then have ne': "normalize_scores ?scores \<noteq> []" by auto
    from normalize_positive(2,3) [OF ne pos] c ne' show ?thesis
      by blast
  qed
  have guard: "0 < py_max (snd kv) (map snd kvs)" if "power_iteration ?es = Inr (kv # kvs)" for kv kvs
  proof -
    have "py_max (snd kv) (map snd kvs) = Max (snd ` set (kv # kvs))"
      by (simp add: py_max_Max)
    also have "\<dots> \<in> snd ` set (kv # kvs)"
      by (rule Max_in) simp_all
    finally show ?thesis
      using that by (rule power_iteration_values [rotated])
  qed
  from none some guard show ?thesis
    by blast
qed

text \<open>Claim C7 on the graph with the edge A-B, and on the empty graph.\<close>

theorem centrality_normalized_witness:
  "get_edges pair_graph \<noteq> []
   \<and> (\<exists>c. calculate_centrality pair_graph = Inr c \<and> c \<noteq> [] \<and> Max (snd ` set c) = 1
          \<and> (\<forall>v \<in> snd ` set c. 0 \<le> v \<and> v \<le> 1))
   \<and> calculate_centrality pair_graph = Inr [(''A'', 20 / 37), (''B'', 1)]
   \<and> get_edges empty_graph = []
   \<and> calculate_centrality empty_graph = Inr []"
proof -
  have a: "get_edges pair_graph \<noteq> []"
    by (simp add: pair_graph_def get_edges_def)
  have b: "get_edges empty_graph = []"
    by (simp add: empty_graph_def get_edges_def)
  have x: "\<exists>c. calculate_centrality pair_graph = Inr c \<and> c \<noteq> [] \<and> Max (snd ` set c) = 1
          \<and> (\<forall>v \<in> snd ` set c. 0 \<le> v \<and> v \<le> 1)"
    by (rule centrality_normalized [of pair_graph, THEN conjunct2, THEN conjunct1, THEN mp, OF a])
  have y: "calculate_centrality empty_graph = Inr []"
    by (rule centrality_normalized [of empty_graph, THEN conjunct1, THEN mp, OF b])
  from a x pair_graph_centrality b y show ?thesis
    by (intro conjI)
qed

section \<open>Hotspot ranking: one record per node, sorted, stable\<close>

lemma foldE_append:
  assumes "foldE (\<lambda>x acc. bindE (F x) (\<lambda>y. Inr (acc @ [y]))) xs acc = Inr ys"
  shows "\<exists>rs. ys = acc @ rs \<and> list_all2 (\<lambda>x y. F x = Inr y) xs rs"
  using assms
proof (induction xs arbitrary: acc)
  case Nil
  then show ?case by simp
next
  case (Cons x xs)
  from Cons.prems obtain y where y: "F x = Inr y"
    and rest: "foldE (\<lambda>x acc. bindE (F x) (\<lambda>y. Inr (acc @ [y]))) xs (acc @ [y]) = Inr ys"
    by (cases "F x") (simp_all add: bindE_def)
  from Cons.IH [OF rest] obtain rs where "ys = (acc @ [y]) @ rs"
    and "list_all2 (\<lambda>x y. F x = Inr y) xs rs"
    by blast
  with y have "ys = acc @ (y # rs) \<and> list_all2 (\<lambda>x y. F x = Inr y) (x # xs) (y # rs)"
    by simp
  then show ?case by blast
qed

lemma foldE_append_total:
  assumes "\<And>x. x \<in> set xs \<Longrightarrow> \<exists>y. F x = Inr y"
  shows "\<exists>ys. foldE (\<lambda>x acc. bindE (F x) (\<lambda>y. Inr (acc @ [y]))) xs acc = Inr ys"
  using assms
proof (induction xs arbitrary: acc)
  case Nil
  then show ?case by simp
next
  case (Cons x xs)
  from Cons.prems obtain y where y: "F x = Inr y" by auto
  from Cons.prems have "\<And>z. z \<in> set xs \<Longrightarrow> \<exists>y. F z = Inr y" by auto
  from Cons.IH [OF this, of "acc @ [y]"] show ?case
    by (simp add: y bindE_def)
qed

lemma hotspot_of_id:
  "hotspot_of w in_degree out_degree centrality nd = Inr h \<Longrightarrow> h_id h = n_id nd"
  by (auto simp add: hotspot_of_def Let_def bindE_def split: sum.splits)

lemma unsorted_hotspots_ids:
  assumes "unsorted_hotspots w ig cg = Inr us"
  shows "map h_id us = map n_id (get_nodes ig)"
proof -
  obtain in_degree out_degree where c: "count_degrees ig cg = (in_degree, out_degree)"
    by (cases "count_degrees ig cg")
  from assms obtain centrality where
    f: "foldE (\<lambda>nd hotspots. bindE (hotspot_of w in_degree out_degree centrality nd)
                (\<lambda>h. Inr (hotspots @ [h]))) (get_nodes ig) [] = Inr us"
    by (auto simp add: unsorted_hotspots_def c bindE_def split: sum.splits)
  from foldE_append [OF f] have "list_all2 (\<lambda>nd h. hotspot_of w in_degree out_degree centrality nd = Inr h)
      (get_nodes ig) us"
    by simp
  then have "list_all2 (\<lambda>nd h. n_id nd = h_id h) (get_nodes ig) us"
    by (rule list_all2_mono) (simp add: hotspot_of_id)
  then show ?thesis
    by (induction rule: list_all2_induct) simp_all
qed

lemma subscript_present: "k \<in> fst ` set d \<Longrightarrow> \<exists>v. dict_subscript d k = Inr v"
  by (cases "map_of d k") (auto simp add: dict_subscript_def map_of_eq_None_iff)

lemma weighted_score_total:
  assumes "complete_weights w"
  shows "\<exists>s. weighted_score w i out c ch l = Inr s"
proof -
  from assms obtain a b c' d e where
    "dict_subscript w ''in_degree'' = Inr a" "dict_subscript w ''out_degree'' = Inr b"
    "dict_subscript w ''centrality'' = Inr c'" "dict_subscript w ''churn'' = Inr d"
    "dict_subscript w ''loc'' = Inr e"
    unfolding complete_weights_def
    by (meson insert_subset subscript_present)
  then show ?thesis
    by (simp add: weighted_score_def bindE_def)
qed

lemma unsorted_hotspots_total:
  assumes "complete_weights w"
  shows "\<exists>us. unsorted_hotspots w ig cg = Inr us"
proof -
  obtain in_degree out_degree where c: "count_degrees ig cg = (in_degree, out_degree)"
    by (cases "count_degrees ig cg")
  obtain centrality where ce: "calculate_centrality ig = Inr centrality"
    by (simp add: calculate_centrality_def power_iteration_spec bindE_def)
  have "\<exists>h. hotspot_of w in_degree out_degree centrality nd = Inr h" for nd
    using weighted_score_total [OF assms]
    by (simp add: hotspot_of_def Let_def bindE_def split: sum.splits) (metis Inl_Inr_False)
  from foldE_append_total [of "get_nodes ig" "hotspot_of w in_degree out_degree centrality" "[]", OF this]
  show ?thesis
    by (simp add: unsorted_hotspots_def c ce bindE_def)
qed


lemma sort_by_score_desc_props:
  "mset (sort_by_score_desc us) = mset us"
  "length (sort_by_score_desc us) = length us"
  "sorted (map (\<lambda>h. - h_score h) (sort_by_score_desc us))"
  "filter (\<lambda>h. h_score h = k) (sort_by_score_desc us) = filter (\<lambda>h. h_score h = k) us"
proof -
  show "mset (sort_by_score_desc us) = mset us"
    by (simp add: sort_by_score_desc_def)
  show "length (sort_by_score_desc us) = length us"
    by (simp add: sort_by_score_desc_def)
  show "sorted (map (\<lambda>h. - h_score h) (sort_by_score_desc us))"
    by (simp add: sort_by_score_desc_def)
  have "filter (\<lambda>h. - h_score h = - k) (sort_key (\<lambda>h. - h_score h) us)
        = filter (\<lambda>h. - h_score h = - k) us"
    by (rule sort_key_stable)
  then show "filter (\<lambda>h. h_score h = k) (sort_by_score_desc us) = filter (\<lambda>h. h_score h = k) us"
    by (simp add: sort_by_score_desc_def)
qed

lemma default_weighted_score:
  "weighted_score DEFAULT_WEIGHTS i out c ch l =
     Inr (3 / 10 * real_of_int i + 2 / 10 * real_of_int out + 3 / 10 * c
          + 1 / 10 * (real_of_int ch / 100) + 1 / 10 * (real_of_int l / 1000))"
  by (simp add: weighted_score_def DEFAULT_WEIGHTS_def dict_subscript_def bindE_def)

lemma pair_graph_hotspots:
  "rank_hotspots DEFAULT_WEIGHTS pair_graph None = Inr pair_hotspots"
proof -
  have d: "count_degrees pair_graph None = ((\<lambda>_. 0)(''B'' := 1), (\<lambda>_. 0)(''A'' := 1))"
    by (simp add: count_degrees_def degree_step_def pair_graph_def get_edges_def)
  have n: "get_nodes pair_graph =
      [\<lparr>n_id = ''A'', n_churn = None, n_loc = None\<rparr>,
       \<lparr>n_id = ''B'', n_churn = None, n_loc = None\<rparr>,
       \<lparr>n_id = ''C'', n_churn = None, n_loc = None\<rparr>]"
    by (simp add: pair_graph_def get_nodes_def)
  have u: "unsorted_hotspots DEFAULT_WEIGHTS pair_graph None =
      Inr [\<lparr>h_id = ''A'', h_in_degree = 0, h_out_degree = 1, h_centrality = 20 / 37, h_churn = 0,
            h_loc = 0, h_score = 67 / 185\<rparr>,
           \<lparr>h_id = ''B'', h_in_degree = 1, h_out_degree = 0, h_centrality = 1, h_churn = 0,
            h_loc = 0, h_score = 3 / 5\<rparr>,
           \<lparr>h_id = ''C'', h_in_degree = 0, h_out_degree = 0, h_centrality = 0, h_churn = 0,
            h_loc = 0, h_score = 0\<rparr>]"
    by (simp add: unsorted_hotspots_def d pair_graph_centrality n bindE_def hotspot_of_def
        default_weighted_score dict_get_def or_zero_def)
  show ?thesis
    by (simp add: rank_hotspots_def u bindE_def sort_by_score_desc_def pair_hotspots_def)
qed

text \<open>
  Claim C8: for every import graph, call graph and weight configuration, the list returned
  by \<open>rank_hotspots\<close> has one record per entry of the import graph's node list and is
  sorted by score, largest first: every adjacent pair has \<open>h[i].score \<ge> h[i+1].score\<close>, and
  the records of equal score keep the order of the node list. The call returns whenever the
  weights have the five keys; a missing key raises \<open>KeyError\<close>.
\<close>

theorem hotspots_sorted:
  "(complete_weights w \<longrightarrow> (\<exists>hs. rank_hotspots w ig cg = Inr hs))
   \<and> (rank_hotspots w ig cg = Inr hs \<longrightarrow>
        length hs = length (get_nodes ig)
        \<and> mset (map h_id hs) = mset (map n_id (get_nodes ig))
        \<and> (\<forall>i. Suc i < length hs \<longrightarrow> h_score (hs ! Suc i) \<le> h_score (hs ! i))
        \<and> (\<exists>us. unsorted_hotspots w ig cg = Inr us
              \<and> map h_id us = map n_id (get_nodes ig)
              \<and> mset hs = mset us
              \<and> (\<forall>k. filter (\<lambda>h. h_score h = k) hs = filter (\<lambda>h. h_score h = k) us)))"
proof -
  have total: "\<exists>hs. rank_hotspots w ig cg = Inr hs" if "complete_weights w"
    using unsorted_hotspots_total [OF that, of ig cg]
    by (auto simp add: rank_hotspots_def bindE_def)
  have props: "length hs = length (get_nodes ig)
        \<and> mset (map h_id hs) = mset (map n_id (get_nodes ig))
        \<and> (\<forall>i. Suc i < length hs \<longrightarrow> h_score (hs ! Suc i) \<le> h_score (hs ! i))
        \<and> (\<exists>us. unsorted_hotspots w ig cg = Inr us
              \<and> map h_id us = map n_id (get_nodes ig)
              \<and> mset hs = mset us
              \<and> (\<forall>k. filter (\<lambda>h. h_score h = k) hs = filter (\<lambda>h. h_score h = k) us))"
    if r: "rank_hotspots w ig cg = Inr hs"
  proof -
    from r obtain us where us: "unsorted_hotspots w ig cg = Inr us"
      and hs: "hs = sort_by_score_desc us"
      by (auto simp add: rank_hotspots_def bindE_def split: sum.splits)
    have ids: "map h_id us = map n_id (get_nodes ig)"
      using us by (rule unsorted_hotspots_ids)
    have m: "mset hs = mset us"
      by (simp add: hs sort_by_score_desc_props)
    from ids have "length us = length (get_nodes ig)"
      by (metis length_map)
    then have len: "length hs = length (get_nodes ig)"
      by (simp add: hs sort_by_score_desc_props)
    have "mset (map h_id hs) = mset (map h_id us)"
      using m by (metis mset_map)
    then have mids: "mset (map h_id hs) = mset (map n_id (get_nodes ig))"
      by (simp only: ids)
    have srt: "sorted (map (\<lambda>h. - h_score h) hs)"
      by (simp add: hs sort_by_score_desc_props)
    have adj: "h_score (hs ! Suc i) \<le> h_score (hs ! i)" if "Suc i < length hs" for i
    proof -
      from that have "Suc i < length (map (\<lambda>h. - h_score h) hs)" by simp
      with srt have "map (\<lambda>h. - h_score h) hs ! i \<le> map (\<lambda>h. - h_score h) hs ! Suc i"
        by (simp only: sorted_iff_nth_Suc)
      with that show ?thesis by simp
    qed
    have st: "filter (\<lambda>h. h_score h = k) hs = filter (\<lambda>h. h_score h = k) us" for k
      by (simp only: hs sort_by_score_desc_props)
    from len mids adj us ids m st show ?thesis
      by blast
  qed
  from total props show ?thesis
    by blast
qed

text \<open>Claim C8 on the graph with the edge A-B under the default weights: B, A, C.\<close>

theorem hotspots_sorted_witness:
  "complete_weights DEFAULT_WEIGHTS
   \<and> rank_hotspots DEFAULT_WEIGHTS pair_graph None = Inr pair_hotspots
   \<and> length pair_hotspots = length (get_nodes pair_graph)
   \<and> mset (map h_id pair_hotspots) = mset (map n_id (get_nodes pair_graph))
   \<and> h_score (pair_hotspots ! 1) \<le> h_score (pair_hotspots ! 0)
   \<and> h_score (pair_hotspots ! 2) \<le> h_score (pair_hotspots ! 1)"
proof -
  have c: "complete_weights DEFAULT_WEIGHTS"
    by (simp add: complete_weights_def DEFAULT_WEIGHTS_def)
  from hotspots_sorted [of DEFAULT_WEIGHTS pair_graph None pair_hotspots, THEN conjunct2, THEN mp,
      OF pair_graph_hotspots]
  have l: "length pair_hotspots = length (get_nodes pair_graph)"
    and m: "mset (map h_id pair_hotspots) = mset (map n_id (get_nodes pair_graph))"
    and s: "\<forall>i. Suc i < length pair_hotspots \<longrightarrow>
         h_score (pair_hotspots ! Suc i) \<le> h_score (pair_hotspots ! i)"
    by blast+
  have n: "length pair_hotspots = 3"
    by (simp add: pair_hotspots_def)
  from s [rule_format, of 0] n have s0: "h_score (pair_hotspots ! 1) \<le> h_score (pair_hotspots ! 0)"
    by simp
  from s [rule_format, of 1] n have s1: "h_score (pair_hotspots ! 2) \<le> h_score (pair_hotspots ! 1)"
    by (simp add: numeral_2_eq_2)
  from c pair_graph_hotspots l m s0 s1 show ?thesis
    by (intro conjI)
qed

section \<open>Empty weights fall back to the defaults\<close>

text \<open>
  Claim C10: constructing \<open>GraphInsights\<close> with the empty weights mapping behaves as
  constructing it without weights: the truthiness fallback replaces the empty mapping by
  the default weights 0.3, 0.2, 0.3, 0.1, 0.1, so \<open>rank_hotspots\<close> produces
  default-weighted scores, which are not all zero (0.6 for B in the graph with the edge
  A-B).
\<close>

theorem empty_weights_are_default:
  "init (Some []) = init None
   \<and> init (Some []) = DEFAULT_WEIGHTS
   \<and> rank_hotspots (init (Some [])) ig cg = rank_hotspots (init None) ig cg
   \<and> weighted_score (init (Some [])) i out c ch l =
       Inr (3 / 10 * real_of_int i + 2 / 10 * real_of_int out + 3 / 10 * c
            + 1 / 10 * (real_of_int ch / 100) + 1 / 10 * (real_of_int l / 1000))
   \<and> rank_hotspots (init (Some [])) pair_graph None = Inr pair_hotspots
   \<and> map h_score pair_hotspots = [3 / 5, 67 / 185, 0]"
proof -
  have i: "init (Some []) = DEFAULT_WEIGHTS" "init None = DEFAULT_WEIGHTS"
    by (simp_all add: init_def)
  show ?thesis
    unfolding i
    using default_weighted_score [of i out c ch l] pair_graph_hotspots
    by (simp add: pair_hotspots_def)
qed

end
